theory Spec2Isabelle
  imports Main "HOL-Library.AList"
begin

section \<open>The selective drop command of \<open>dlt/pipeline/helpers.py\<close>\<close>

text \<open>
  The development embeds \<open>DropCommand\<close> and \<open>drop\<close> of \<open>dlt/pipeline/helpers.py\<close>.
  In-place mutation is made explicit: state trees live in a store of objects, the
  command object and the pipeline are passed through every method and returned
  updated, and every \<open>raise\<close> is a value of type \<open>error\<close>.
\<close>

subsection \<open>Errors\<close>

text \<open>
  Values of this type stand for instances of Python's \<open>Exception\<close>.
  \<open>Raised\<close> is any exception that leaves a collaborator (destination client,
  load step, pattern or path compiler), identified by its message.
\<close>

datatype error =
    PipelineHasPendingDataException string string
  | KeyError string
  | Raised string

subsection \<open>Schemas and tables\<close>

record Table =
  table_name :: string
  resource :: string
  parent :: "string option"

text \<open>
  \<open>Schema.tables\<close> is a mapping from table name to table in insertion order; it is
  kept as the list of its values, each carrying its own name.
\<close>

record Schema =
  name :: string
  tables :: "Table list"
  version :: nat

text \<open>A compiled resource pattern is used only through \<open>pattern.match(key)\<close>.\<close>

type_synonym REPattern = "string \<Rightarrow> bool"

text \<open>
  Modelled from the spec: \<open>Schema.bump_version\<close> of \<open>dlt.common.schema\<close>, which is
  not among the sources at hand; it increments the schema version.
\<close>

definition bump_version :: "Schema \<Rightarrow> Schema" where
  "bump_version s = s\<lparr>version := version s + 1\<rparr>"

text \<open>Keys in order of first occurrence, as a Python \<open>dict\<close> keeps them.\<close>

fun first_occurrences :: "'a list \<Rightarrow> 'a list" where
  "first_occurrences [] = []"
| "first_occurrences (x # xs) = x # filter (\<lambda>y. y \<noteq> x) (first_occurrences xs)"

text \<open>
  Modelled from the spec: \<open>group_tables_by_resource\<close> of \<open>dlt.common.schema.utils\<close>,
  which is not among the sources at hand. It groups only the tables whose resource name
  matches the pattern, under their resource name; resources without a matching table
  are omitted. Groups appear in the order in which their resource is first met, and the
  tables of a group in schema order.
\<close>

definition group_tables_by_resource :: "Table list \<Rightarrow> REPattern \<Rightarrow> (string \<times> Table list) list" where
  "group_tables_by_resource tbls pat =
     (let sel = filter (\<lambda>t. pat (resource t)) tbls
      in map (\<lambda>r. (r, filter (\<lambda>t. resource t = r) sel)) (first_occurrences (map resource sel)))"

subsection \<open>State trees\<close>

text \<open>
  A state tree is a nested mapping from string keys to arbitrary nested values; a scalar
  is kept by its text. A Python \<open>dict\<close> is an association list in insertion order.
\<close>

datatype json = JVal string | JObj "(string \<times> json) list"

type_synonym dict = "(string \<times> json) list"

text \<open>\<open>dict.update\<close>: every item of the second dictionary is stored into the first.\<close>

definition dict_update :: "dict \<Rightarrow> dict \<Rightarrow> dict" where
  "dict_update a b = foldl (\<lambda>acc kv. AList.update (fst kv) (snd kv) acc) a b"

text \<open>
  Modelled from the spec: \<open>sources_state\<close> of \<open>dlt.common.pipeline\<close>, which is not among
  the sources at hand. The state tree is scoped per source under the key \<open>sources\<close>
  (\<open>sources[source_name][resource_name]\<close>); an absent sub-tree has no sources.
\<close>

definition sources_state :: "dict \<Rightarrow> dict" where
  "sources_state st = (case map_of st ''sources'' of Some (JObj srcs) \<Rightarrow> srcs | _ \<Rightarrow> [])"

text \<open>
  The source states are objects nested in the state object: mutating them in place
  changes the state object that holds them. \<open>set_sources\<close> writes the mutated source
  states back at their place.
\<close>

definition set_sources :: "dict \<Rightarrow> dict \<Rightarrow> dict" where
  "set_sources st srcs =
     (case map_of st ''sources'' of
        Some (JObj old) \<Rightarrow> AList.update ''sources'' (JObj srcs) st
      | _ \<Rightarrow> st)"

text \<open>
  Modelled from the spec: \<open>_get_matching_resources\<close> of \<open>dlt.common.pipeline\<close>, which is
  not among the sources at hand. It returns the resource keys present in a source's
  state node whose name matches. The empty selector is represented by \<open>None\<close> in
  \<open>DropCommand\<close> and matches nothing.
\<close>

fun get_matching_resources :: "REPattern option \<Rightarrow> json \<Rightarrow> string list" where
  "get_matching_resources (Some pat) (JObj kvs) = filter pat (map fst kvs)"
| "get_matching_resources _ _ = []"

text \<open>
  Modelled from the spec: \<open>_reset_resource_state\<close> of \<open>dlt.common.pipeline\<close>, which is
  not among the sources at hand. It removes the entire sub-tree of the resource key and
  leaves the sibling resources untouched.
\<close>

fun reset_resource_state :: "string \<Rightarrow> json \<Rightarrow> json" where
  "reset_resource_state key (JObj kvs) = JObj (AList.delete key kvs)"
| "reset_resource_state key (JVal v) = JVal v"

subsection \<open>Path selectors\<close>

text \<open>
  Modelled from the spec: \<open>compile_paths\<close>, \<open>resolve_paths\<close> of \<open>dlt.common.jsonpath\<close>
  and \<open>_delete_source_state_keys\<close> of \<open>dlt.common.pipeline\<close>, which are not among the
  sources at hand. Path expressions are JSON-path-like; the model covers the dotted
  field paths the spec uses (\<open>config.token\<close>). A path with an empty field is malformed.
\<close>

fun fields_of :: "string \<Rightarrow> string list" where
  "fields_of [] = [[]]"
| "fields_of (c # cs) =
     (if c = CHR ''.'' then [] # fields_of cs
      else (case fields_of cs of [] \<Rightarrow> [[c]] | f # fs \<Rightarrow> (c # f) # fs))"

fun dotted :: "string list \<Rightarrow> string" where
  "dotted [] = []"
| "dotted [f] = f"
| "dotted (f # fs) = f @ ''.'' @ dotted fs"

type_synonym JSONPath = "string list"

definition compile_path :: "string \<Rightarrow> error + JSONPath" where
  "compile_path s =
     (if [] \<in> set (fields_of s) then Inl (Raised (''invalid path: '' @ s)) else Inr (fields_of s))"

fun compile_paths :: "string list \<Rightarrow> error + JSONPath list" where
  "compile_paths [] = Inr []"
| "compile_paths (s # ss) =
     (case compile_path s of
        Inl e \<Rightarrow> Inl e
      | Inr p \<Rightarrow> (case compile_paths ss of Inl e \<Rightarrow> Inl e | Inr ps \<Rightarrow> Inr (p # ps)))"

fun find_path :: "JSONPath \<Rightarrow> json \<Rightarrow> json option" where
  "find_path [] j = Some j"
| "find_path (k # ks) (JObj kvs) =
     (case map_of kvs k of None \<Rightarrow> None | Some v \<Rightarrow> find_path ks v)"
| "find_path (k # ks) (JVal v) = None"

text \<open>
  \<open>resolve_paths\<close> returns every concrete path present in the tree that is matched by a
  compiled expression, without duplicates, as text.
\<close>

definition resolve_paths :: "JSONPath list \<Rightarrow> json \<Rightarrow> string list" where
  "resolve_paths paths tree =
     first_occurrences (map dotted (filter (\<lambda>p. find_path p tree \<noteq> None) paths))"

text \<open>
  Deleting a path removes the addressed node; deleting a path whose parent no longer
  exists is a no-op.
\<close>

fun delete_path :: "JSONPath \<Rightarrow> json \<Rightarrow> json" where
  "delete_path [] j = j"
| "delete_path [k] (JObj kvs) = JObj (AList.delete k kvs)"
| "delete_path (k # ks) (JObj kvs) =
     JObj (map (\<lambda>kv. if fst kv = k then (fst kv, delete_path ks (snd kv)) else kv) kvs)"
| "delete_path (k # ks) (JVal v) = JVal v"

definition delete_source_state_keys :: "string list \<Rightarrow> json \<Rightarrow> json" where
  "delete_source_state_keys paths s = foldl (\<lambda>acc p. delete_path (fields_of p) acc) s paths"

subsection \<open>The pipeline\<close>

text \<open>
  The collaborators of the command are black boxes. Each call that reaches one is
  recorded, with its arguments, in the pipeline's \<open>trace\<close>; whether it raises is given
  by the pipeline's \<open>raises\<close>.
\<close>

datatype call =
    DropTables string "string list"
  | DropDataset string
  | PipelineDrop
  | SyncDestination
  | ManagedStateEnter bool bool
  | ManagedStateExit
  | SaveSchema Schema
  | Normalize
  | Load bool
  | WipeNormalizedPackages

text \<open>
  State trees are objects in a store. \<open>state_ref\<close> is the object the property
  \<open>pipeline.state\<close> hands out, \<open>managed_ref\<close> the object \<open>pipeline.managed_state\<close>
  hands out. Distinct objects of the store share no sub-tree.
\<close>

record Pipeline =
  pipeline_name :: string
  pipelines_dir :: string
  dataset_name :: string
  default_schema_name :: string
  schemas :: "(string \<times> Schema) list"
  has_pending_data :: bool
  state_ref :: nat
  managed_ref :: nat
  store :: "nat \<Rightarrow> dict"
  raises :: "call \<Rightarrow> error option"
  trace :: "call list"

definition invoke :: "call \<Rightarrow> Pipeline \<Rightarrow> error option \<times> Pipeline" where
  "invoke c p = (raises p c, p\<lparr>trace := trace p @ [c]\<rparr>)"

subsection \<open>The command object\<close>

record DropInfo =
  info_tables :: "string list"
  info_resource_states :: "string list"
  info_resource_names :: "string list"
  info_state_paths :: "string list"
  info_schema_name :: string
  info_dataset_name :: string
  info_drop_all :: bool
  info_resource_pattern :: "REPattern option"

record DropCommand =
  schema :: Schema
  drop_tables :: bool
  drop_state :: bool
  resource_pattern :: "REPattern option"
  tables_to_drop :: "Table list"
  skip_state_wipe :: bool
  state_paths_to_drop :: "JSONPath list"
  drop_all :: bool
  info :: DropInfo
  new_state :: nat

text \<open>An argument that is either one string or a collection of strings.\<close>

datatype str_or_strs = Str string | Strs "string list"

fun as_list :: "str_or_strs \<Rightarrow> string list" where
  "as_list (Str s) = [s]"
| "as_list (Strs ss) = ss"

subsection \<open>\<open>DropCommand._create_modified_state\<close>\<close>

text \<open>
  The inner loop of lines 125--127: every matching key is appended to
  \<open>info['resource_states']\<close> and its resource state is reset in the source state.
\<close>

fun reset_matching :: "string list \<Rightarrow> DropInfo \<times> json \<Rightarrow> DropInfo \<times> json" where
  "reset_matching [] acc = acc"
| "reset_matching (key # keys) (di, s) =
     reset_matching keys
       (di\<lparr>info_resource_states := info_resource_states di @ [key]\<rparr>, reset_resource_state key s)"

text \<open>The body of the loop over the sources, lines 124--130.\<close>

definition process_source :: "DropCommand \<Rightarrow> DropInfo \<times> dict \<Rightarrow> string \<times> json \<Rightarrow> DropInfo \<times> dict" where
  "process_source self acc src =
     (let source_name = fst src;
          (di1, s1) =
            (if \<not> skip_state_wipe self
             then reset_matching (get_matching_resources (resource_pattern self) (snd src)) (fst acc, snd src)
             else (fst acc, snd src));
          resolved_paths = resolve_paths (state_paths_to_drop self) s1;
          s2 = delete_source_state_keys resolved_paths s1
      in (di1\<lparr>info_state_paths :=
                 info_state_paths di1 @ map (\<lambda>p. source_name @ ''.'' @ p) resolved_paths\<rparr>,
          snd acc @ [(source_name, s2)]))"

definition create_modified_state :: "DropCommand \<Rightarrow> Pipeline \<Rightarrow> nat \<times> DropCommand \<times> Pipeline" where
  "create_modified_state self p =
     (let state = state_ref p
      in if \<not> drop_state self then (state, self, p)
         else
           (let r = foldl (process_source self) (info self, []) (sources_state (store p state))
            in (state,
                self\<lparr>info := fst r\<rparr>,
                p\<lparr>store := (store p)(state := set_sources (store p state) (snd r))\<rparr>)))"

subsection \<open>\<open>DropCommand.__init__\<close>\<close>

text \<open>
  \<open>compile_simple_regexes\<close> of \<open>dlt.common.schema.utils\<close> is not among the sources at
  hand and the spec leaves its pattern dialect open; it is the parameter \<open>crx\<close>, which
  either raises or returns the compiled pattern. \<open>set(resources)\<close> is the list of the
  selectors without duplicates.
\<close>

text \<open>
  Lines 77--89: with a non-empty selector set the pattern is compiled, the schema tables
  are grouped by resource and the groups, chained and reversed, are the tables to drop;
  with an empty one there is no pattern, no table and \<open>drop_tables\<close> is false. The
  result is the pattern, the tables to drop, the resource names and \<open>drop_tables\<close>.
\<close>

definition select_tables ::
  "(string list \<Rightarrow> error + REPattern) \<Rightarrow> Schema \<Rightarrow> string list
     \<Rightarrow> error + REPattern option \<times> Table list \<times> string list \<times> bool" where
  "select_tables crx sch resources =
     (if resources \<noteq> [] then
        (case crx resources of
           Inl e \<Rightarrow> Inl e
         | Inr rp \<Rightarrow>
             (let resource_tables = group_tables_by_resource (tables sch) rp
              in Inr (Some rp, rev (concat (map snd resource_tables)), map fst resource_tables, True)))
      else Inr (None, [], [], False))"

definition DropCommand_init ::
  "(string list \<Rightarrow> error + REPattern) \<Rightarrow> Pipeline \<Rightarrow> str_or_strs \<Rightarrow> string option \<Rightarrow> str_or_strs
     \<Rightarrow> bool \<Rightarrow> bool \<Rightarrow> error + DropCommand \<times> Pipeline" where
  "DropCommand_init crx pipeline resources schema_name state_paths drop_all_arg skip_state_wipe_arg =
     (let resources1 = as_list resources;
          state_paths1 = as_list state_paths;
          key = (case schema_name of
                   None \<Rightarrow> default_schema_name pipeline
                 | Some n \<Rightarrow> if n = [] then default_schema_name pipeline else n)
      in case map_of (schemas pipeline) key of
           None \<Rightarrow> Inl (KeyError key)
         | Some sch \<Rightarrow>
             (case select_tables crx sch (remdups resources1) of
                Inl e \<Rightarrow> Inl e
              | Inr (pat, to_drop, resource_names, drop_tbls) \<Rightarrow>
                  (case compile_paths state_paths1 of
                     Inl e \<Rightarrow> Inl e
                   | Inr cps \<Rightarrow>
                       (let self = \<lparr>schema = sch,
                                    drop_tables = drop_tbls,
                                    drop_state = True,
                                    resource_pattern = pat,
                                    tables_to_drop = to_drop,
                                    skip_state_wipe = (skip_state_wipe_arg \<or> pat = None),
                                    state_paths_to_drop = cps,
                                    drop_all = drop_all_arg,
                                    info = \<lparr>info_tables = map table_name to_drop,
                                            info_resource_states = [],
                                            info_resource_names = resource_names,
                                            info_state_paths = [],
                                            info_schema_name = name sch,
                                            info_dataset_name = dataset_name pipeline,
                                            info_drop_all = drop_all_arg,
                                            info_resource_pattern = pat\<rparr>,
                                    new_state = state_ref pipeline\<rparr>;
                            r = create_modified_state self pipeline;
                            self1 = (fst (snd r))\<lparr>new_state := fst r\<rparr>
                        in Inr (if skip_state_wipe self1 \<and> state_paths_to_drop self1 = []
                                then self1\<lparr>drop_state := False\<rparr> else self1,
                                snd (snd r))))))"

subsection \<open>The steps of \<open>DropCommand.__call__\<close>\<close>

definition drop_destination_tables :: "DropCommand \<Rightarrow> Pipeline \<Rightarrow> error option \<times> Pipeline" where
  "drop_destination_tables self p =
     invoke (DropTables (name (schema self)) (map table_name (tables_to_drop self))) p"

text \<open>
  \<open>del self.schema_tables[name]\<close> raises \<open>KeyError\<close> when the schema has no table of
  that name; the tables deleted before stay deleted.
\<close>

fun del_tables :: "string list \<Rightarrow> Table list \<Rightarrow> error option \<times> Table list" where
  "del_tables [] ts = (None, ts)"
| "del_tables (n # ns) ts =
     (if n \<in> set (map table_name ts)
      then del_tables ns (filter (\<lambda>t. table_name t \<noteq> n) ts)
      else (Some (KeyError n), ts))"

definition delete_pipeline_tables :: "DropCommand \<Rightarrow> error option \<times> DropCommand" where
  "delete_pipeline_tables self =
     (case del_tables (map table_name (tables_to_drop self)) (tables (schema self)) of
        (Some e, ts) \<Rightarrow> (Some e, self\<lparr>schema := (schema self)\<lparr>tables := ts\<rparr>\<rparr>)
      | (None, ts) \<Rightarrow> (None, self\<lparr>schema := bump_version ((schema self)\<lparr>tables := ts\<rparr>)\<rparr>))"

text \<open>
  Lines 133--137: inside the managed-state context the managed state object is cleared
  and then updated from the object \<open>_new_state\<close> refers to, as it is at that moment.
\<close>

definition drop_state_keys :: "DropCommand \<Rightarrow> Pipeline \<Rightarrow> error option \<times> Pipeline" where
  "drop_state_keys self p =
     (case invoke (ManagedStateEnter True True) p of
        (Some e, p1) \<Rightarrow> (Some e, p1)
      | (None, p1) \<Rightarrow>
          (let state = managed_ref p1;
               cleared = (store p1)(state := []);
               updated = cleared(state := dict_update (cleared state) (cleared (new_state self)))
           in invoke ManagedStateExit (p1\<lparr>store := updated\<rparr>)))"

definition DropCommand_drop_all :: "DropCommand \<Rightarrow> Pipeline \<Rightarrow> error option \<times> Pipeline" where
  "DropCommand_drop_all self p =
     (case invoke (DropDataset (name (schema self))) p of
        (Some e, p1) \<Rightarrow> (Some e, p1)
      | (None, p1) \<Rightarrow>
          (case invoke PipelineDrop p1 of
             (Some e, p2) \<Rightarrow> (Some e, p2)
           | (None, p2) \<Rightarrow> invoke SyncDestination p2))"

text \<open>Lines 154--156: the table step.\<close>

definition tables_step :: "DropCommand \<Rightarrow> Pipeline \<Rightarrow> error option \<times> DropCommand \<times> Pipeline" where
  "tables_step self p =
     (if drop_tables self then
        (case delete_pipeline_tables self of
           (Some e, self1) \<Rightarrow> (Some e, self1, p)
         | (None, self1) \<Rightarrow>
             (case drop_destination_tables self1 p of (r, p1) \<Rightarrow> (r, self1, p1)))
      else (None, self, p))"

text \<open>Lines 162--168: normalize, then the load step guarded by \<open>try\<close>/\<open>except Exception\<close>.\<close>

definition final_sync :: "Pipeline \<Rightarrow> error option \<times> Pipeline" where
  "final_sync p =
     (case invoke Normalize p of
        (Some e, p1) \<Rightarrow> (Some e, p1)
      | (None, p1) \<Rightarrow>
          (case invoke (Load True) p1 of
             (None, p2) \<Rightarrow> (None, p2)
           | (Some e, p2) \<Rightarrow>
               (case invoke WipeNormalizedPackages p2 of
                  (Some e', p3) \<Rightarrow> (Some e', p3)
                | (None, p3) \<Rightarrow> (Some e, p3))))"

subsection \<open>\<open>DropCommand.__call__\<close> and \<open>drop\<close>\<close>

definition DropCommand_call :: "DropCommand \<Rightarrow> Pipeline \<Rightarrow> error option \<times> DropCommand \<times> Pipeline" where
  "DropCommand_call self p =
     (if has_pending_data p then
        (Some (PipelineHasPendingDataException (pipeline_name p) (pipelines_dir p)), self, p)
      else if drop_all self then
        (case DropCommand_drop_all self p of (r, p1) \<Rightarrow> (r, self, p1))
      else if \<not> drop_state self \<and> \<not> drop_tables self then (None, self, p)
      else
        (case tables_step self p of
           (Some e, self1, p1) \<Rightarrow> (Some e, self1, p1)
         | (None, self1, p1) \<Rightarrow>
             (case (if drop_state self1 then drop_state_keys self1 p1 else (None, p1)) of
                (Some e, p2) \<Rightarrow> (Some e, self1, p2)
              | (None, p2) \<Rightarrow>
                  (case (if drop_tables self1 then invoke (SaveSchema (schema self1)) p2 else (None, p2)) of
                     (Some e, p3) \<Rightarrow> (Some e, self1, p3)
                   | (None, p3) \<Rightarrow> (case final_sync p3 of (r, p4) \<Rightarrow> (r, self1, p4))))))"

definition drop_cmd ::
  "(string list \<Rightarrow> error + REPattern) \<Rightarrow> Pipeline \<Rightarrow> str_or_strs \<Rightarrow> string option \<Rightarrow> str_or_strs
     \<Rightarrow> bool \<Rightarrow> bool \<Rightarrow> error option \<times> Pipeline" where
  "drop_cmd crx pipeline resources schema_name state_paths drop_all_arg skip_state_wipe_arg =
     (case DropCommand_init crx pipeline resources schema_name state_paths drop_all_arg skip_state_wipe_arg of
        Inl e \<Rightarrow> (Some e, pipeline)
      | Inr (self, p1) \<Rightarrow> (case DropCommand_call self p1 of (r, self1, p2) \<Rightarrow> (r, p2)))"

subsection \<open>Notions used in the statements\<close>

text \<open>
  The source state after the resets of lines 124--127, and the keys these resets report:
  with \<open>skip_state_wipe\<close> off, every matching resource key is reset, one after the other.
\<close>

definition wiped :: "DropCommand \<Rightarrow> json \<Rightarrow> json" where
  "wiped self s =
     (if \<not> skip_state_wipe self
      then foldl (\<lambda>acc key. reset_resource_state key acc) s (get_matching_resources (resource_pattern self) s)
      else s)"

definition matched :: "DropCommand \<Rightarrow> json \<Rightarrow> string list" where
  "matched self s = (if \<not> skip_state_wipe self then get_matching_resources (resource_pattern self) s else [])"

text \<open>
  The body of the loop over the sources as the specification words it: the paths are
  resolved against the source's state node before the resets are applied, then resets
  and path deletions are applied to the same node. It is compared with
  \<open>process_source\<close>, which follows the code.
\<close>

definition process_source_resolving_first ::
  "DropCommand \<Rightarrow> DropInfo \<times> dict \<Rightarrow> string \<times> json \<Rightarrow> DropInfo \<times> dict" where
  "process_source_resolving_first self acc src =
     (let source_name = fst src;
          resolved_paths = resolve_paths (state_paths_to_drop self) (snd src);
          (di1, s1) =
            (if \<not> skip_state_wipe self
             then reset_matching (get_matching_resources (resource_pattern self) (snd src)) (fst acc, snd src)
             else (fst acc, snd src));
          s2 = delete_source_state_keys resolved_paths s1
      in (di1\<lparr>info_state_paths :=
                 info_state_paths di1 @ map (\<lambda>p. source_name @ ''.'' @ p) resolved_paths\<rparr>,
          snd acc @ [(source_name, s2)]))"

text \<open>The schema \<open>schema_name or pipeline.default_schema_name\<close> selects.\<close>

definition the_schema_key :: "Pipeline \<Rightarrow> string option \<Rightarrow> string" where
  "the_schema_key p sn = (case sn of None \<Rightarrow> default_schema_name p | Some n \<Rightarrow> if n = [] then default_schema_name p else n)"

text \<open>The collaborator calls made between two states of the pipeline.\<close>

definition new_calls :: "Pipeline \<Rightarrow> Pipeline \<Rightarrow> call list" where
  "new_calls p p1 = List.drop (length (trace p)) (trace p1)"

text \<open>The calls of the table step: the destination's \<open>drop_tables\<close> and \<open>save_schema\<close>.\<close>

fun table_step_call :: "call \<Rightarrow> bool" where
  "table_step_call (DropTables n ts) = True"
| "table_step_call (SaveSchema s) = True"
| "table_step_call c = False"

text \<open>\<open>precedes a b xs\<close>: \<open>a\<close> occurs in \<open>xs\<close> and \<open>b\<close> occurs after it.\<close>

fun precedes :: "'a \<Rightarrow> 'a \<Rightarrow> 'a list \<Rightarrow> bool" where
  "precedes a b [] = False"
| "precedes a b (x # xs) = (if x = a then b \<in> set xs else precedes a b xs)"


subsection \<open>Example pipelines and commands\<close>

text \<open>Exact resource names as selectors: the pattern matches the names it was built from.\<close>

definition exact_names :: "string list \<Rightarrow> error + REPattern" where
  "exact_names sel = Inr (\<lambda>n. n \<in> set sel)"



definition users_schema :: Schema where
  "users_schema =
     \<lparr>name = ''main'',
      tables = [\<lparr>table_name = ''users'', resource = ''users'', parent = None\<rparr>,
                \<lparr>table_name = ''users__addresses'', resource = ''users'', parent = Some ''users''\<rparr>,
                \<lparr>table_name = ''orders'', resource = ''orders'', parent = None\<rparr>],
      version = 3\<rparr>"

definition shop_source :: "string \<times> json" where
  "shop_source =
     (''shop'',
      JObj [(''users'', JObj [(''cursor'', JVal ''41'')]),
            (''orders'', JObj [(''cursor'', JVal ''9'')]),
            (''config'', JObj [(''token'', JVal ''t''), (''url'', JVal ''u'')])])"

definition users_state :: dict where
  "users_state =
     [(''_state_version'', JVal ''7''),
      (''sources'',
       JObj [(''shop'',
              JObj [(''users'', JObj [(''cursor'', JVal ''41'')]),
                    (''orders'', JObj [(''cursor'', JVal ''9'')]),
                    (''config'', JObj [(''token'', JVal ''t''), (''url'', JVal ''u'')])])])]"

text \<open>
  A pipeline whose \<open>state\<close> property hands out object 1 and whose managed state is
  object 0, both holding the same state tree; no collaborator raises.
\<close>

definition users_pipeline :: Pipeline where
  "users_pipeline =
     \<lparr>pipeline_name = ''shop_pipeline'',
      pipelines_dir = ''/var/dlt'',
      dataset_name = ''shop_data'',
      default_schema_name = ''main'',
      schemas = [(''main'', users_schema)],
      has_pending_data = False,
      state_ref = 1,
      managed_ref = 0,
      store = (\<lambda>a. [])(0 := users_state, 1 := users_state),
      raises = (\<lambda>c. None),
      trace = []\<rparr>"

definition pending_pipeline :: Pipeline where
  "pending_pipeline = users_pipeline\<lparr>has_pending_data := True\<rparr>"

definition load_failing_pipeline :: Pipeline where
  "load_failing_pipeline =
     users_pipeline\<lparr>raises := (\<lambda>c. if c = Load True then Some (Raised ''load failed'') else None)\<rparr>"



text \<open>The command \<open>DropCommand(pipeline, "users")\<close> builds on this pipeline, and variants.\<close>

definition users_command :: DropCommand where
  "users_command =
     \<lparr>schema = users_schema,
      drop_tables = True,
      drop_state = True,
      resource_pattern = Some (\<lambda>n. n = ''users''),
      tables_to_drop = [\<lparr>table_name = ''users__addresses'', resource = ''users'', parent = Some ''users''\<rparr>,
                        \<lparr>table_name = ''users'', resource = ''users'', parent = None\<rparr>],
      skip_state_wipe = False,
      state_paths_to_drop = [],
      drop_all = False,
      info = \<lparr>info_tables = [''users__addresses'', ''users''],
              info_resource_states = [''users''],
              info_resource_names = [''users''],
              info_state_paths = [],
              info_schema_name = ''main'',
              info_dataset_name = ''shop_data'',
              info_drop_all = False,
              info_resource_pattern = Some (\<lambda>n. n = ''users'')\<rparr>,
      new_state = 1\<rparr>"

definition cursor_command :: DropCommand where
  "cursor_command =
     users_command\<lparr>state_paths_to_drop := [[''users'', ''cursor'']],
                    info := (info users_command)\<lparr>info_resource_states := []\<rparr>\<rparr>"

definition drop_all_command :: DropCommand where
  "drop_all_command = users_command\<lparr>drop_all := True\<rparr>"

section \<open>Properties\<close>

subsection \<open>Evaluation of the examples\<close>

lemmas example_defs = users_pipeline_def users_schema_def users_state_def exact_names_def

lemmas init_defs = DropCommand_init_def select_tables_def group_tables_by_resource_def
  create_modified_state_def process_source_def sources_state_def set_sources_def
  resolve_paths_def delete_source_state_keys_def compile_path_def Let_def

lemmas call_defs = DropCommand_call_def tables_step_def drop_destination_tables_def
  drop_state_keys_def final_sync_def DropCommand_drop_all_def invoke_def Let_def

lemmas call_eval = call_defs new_calls_def delete_pipeline_tables_def bump_version_def
  dict_update_def users_command_def

subsection \<open>The constructor\<close>

lemma reset_matching_eq:
  "reset_matching keys (di, s) =
     (di\<lparr>info_resource_states := info_resource_states di @ keys\<rparr>,
      foldl (\<lambda>acc key. reset_resource_state key acc) s keys)"
  by (induction keys arbitrary: di s) simp_all

lemma process_source_eq:
  "process_source self (di, done) (n, s) =
     (di\<lparr>info_resource_states := info_resource_states di @ matched self s,
         info_state_paths := info_state_paths di @
            map (\<lambda>q. n @ ''.'' @ q) (resolve_paths (state_paths_to_drop self) (wiped self s))\<rparr>,
      done @ [(n, delete_source_state_keys
                    (resolve_paths (state_paths_to_drop self) (wiped self s)) (wiped self s))])"
  by (simp add: process_source_def wiped_def matched_def reset_matching_eq Let_def)

lemma fold_process_source:
  "foldl (process_source self) (di, done) srcs =
     (di\<lparr>info_resource_states := info_resource_states di @ concat (map (\<lambda>src. matched self (snd src)) srcs),
         info_state_paths := info_state_paths di @
            concat (map (\<lambda>src. map (\<lambda>q. fst src @ ''.'' @ q)
                                   (resolve_paths (state_paths_to_drop self) (wiped self (snd src)))) srcs)\<rparr>,
      done @ map (\<lambda>src. (fst src, delete_source_state_keys
                    (resolve_paths (state_paths_to_drop self) (wiped self (snd src))) (wiped self (snd src)))) srcs)"
proof (induction srcs arbitrary: di "done")
  case Nil
  show ?case by simp
next
  case (Cons src srcs)
  obtain n s where src: "src = (n, s)" by (cases src)
  show ?case
    by (simp add: src process_source_eq Cons.IH)
qed

lemma sources_state_set_sources:
  "length srcs = length (sources_state st) \<Longrightarrow> sources_state (set_sources st srcs) = srcs"
  by (auto simp: sources_state_def set_sources_def update_conv' split: option.splits json.splits)

lemma wiped_cong:
  "skip_state_wipe a = skip_state_wipe b \<Longrightarrow> resource_pattern a = resource_pattern b \<Longrightarrow> wiped a = wiped b"
  by (simp add: wiped_def fun_eq_iff)

lemma matched_cong:
  "skip_state_wipe a = skip_state_wipe b \<Longrightarrow> resource_pattern a = resource_pattern b \<Longrightarrow> matched a = matched b"
  by (simp add: matched_def fun_eq_iff)

lemma create_modified_state_eq:
  "drop_state self \<Longrightarrow> create_modified_state self p =
     (state_ref p,
      self\<lparr>info := (info self)\<lparr>
         info_resource_states := info_resource_states (info self) @
            concat (map (\<lambda>src. matched self (snd src)) (sources_state (store p (state_ref p)))),
         info_state_paths := info_state_paths (info self) @
            concat (map (\<lambda>src. map (\<lambda>q. fst src @ ''.'' @ q)
                (resolve_paths (state_paths_to_drop self) (wiped self (snd src))))
              (sources_state (store p (state_ref p))))\<rparr>\<rparr>,
      p\<lparr>store := (store p)(state_ref p := set_sources (store p (state_ref p))
         (map (\<lambda>src. (fst src, delete_source_state_keys
                    (resolve_paths (state_paths_to_drop self) (wiped self (snd src))) (wiped self (snd src))))
            (sources_state (store p (state_ref p)))))\<rparr>)"
  by (simp add: create_modified_state_def Let_def fold_process_source)

lemma create_modified_state_frame:
  "create_modified_state self p = (r, self1, p1) \<Longrightarrow>
     r = state_ref p \<and> p1 = p\<lparr>store := (store p)(state_ref p := store p1 (state_ref p))\<rparr>"
  by (auto simp: create_modified_state_def Let_def split: if_splits)

lemma init_frame:
  assumes "DropCommand_init crx p rs sn sps da ssw = Inr (self, p1)"
  shows "new_state self = state_ref p \<and> p1 = p\<lparr>store := (store p)(state_ref p := store p1 (state_ref p))\<rparr>"
proof -
  from assms obtain c where c: "snd (snd (create_modified_state c p)) = p1"
     and n: "new_state self = fst (create_modified_state c p)"
    by (auto simp: DropCommand_init_def Let_def split: option.splits sum.splits prod.splits if_splits)
  obtain r c1 q where q: "create_modified_state c p = (r, c1, q)"
    by (cases "create_modified_state c p") auto
  from create_modified_state_frame [OF q] c n q show ?thesis by simp
qed

lemma init_result:
  assumes "DropCommand_init crx p rs sn sps da ssw = Inr (self, p1)"
  shows "\<exists>sch pat to_drop names dt cps.
     map_of (schemas p) (the_schema_key p sn) = Some sch \<and>
     select_tables crx sch (remdups (as_list rs)) = Inr (pat, to_drop, names, dt) \<and>
     compile_paths (as_list sps) = Inr cps \<and>
     schema self = sch \<and> drop_tables self = dt \<and> resource_pattern self = pat \<and>
     tables_to_drop self = to_drop \<and> skip_state_wipe self = (ssw \<or> pat = None) \<and>
     state_paths_to_drop self = cps \<and> drop_all self = da \<and> new_state self = state_ref p \<and>
     drop_state self = (\<not> ((ssw \<or> pat = None) \<and> cps = [])) \<and>
     info_tables (info self) = map table_name to_drop \<and>
     info_resource_names (info self) = names \<and>
     info_schema_name (info self) = name sch \<and>
     info_dataset_name (info self) = dataset_name p \<and>
     info_drop_all (info self) = da \<and>
     info_resource_pattern (info self) = pat \<and>
     info_resource_states (info self) =
        concat (map (\<lambda>src. matched self (snd src)) (sources_state (store p (state_ref p)))) \<and>
     info_state_paths (info self) =
        concat (map (\<lambda>src. map (\<lambda>q. fst src @ ''.'' @ q)
                (resolve_paths (state_paths_to_drop self) (wiped self (snd src))))
              (sources_state (store p (state_ref p)))) \<and>
     p1 = p\<lparr>store := (store p)(state_ref p := set_sources (store p (state_ref p))
         (map (\<lambda>src. (fst src, delete_source_state_keys
                    (resolve_paths (state_paths_to_drop self) (wiped self (snd src))) (wiped self (snd src))))
            (sources_state (store p (state_ref p)))))\<rparr>"
proof -
  from assms obtain sch where sch: "map_of (schemas p) (the_schema_key p sn) = Some sch"
    by (auto simp: DropCommand_init_def the_schema_key_def Let_def split: option.splits)
  from assms sch obtain pat to_drop names dt where
    sel: "select_tables crx sch (remdups (as_list rs)) = Inr (pat, to_drop, names, dt)"
    by (auto simp: DropCommand_init_def the_schema_key_def Let_def split: sum.splits)
  from assms sch sel obtain cps where cps: "compile_paths (as_list sps) = Inr cps"
    by (auto simp: DropCommand_init_def the_schema_key_def Let_def split: sum.splits)
  define self0 where "self0 = \<lparr>schema = sch, drop_tables = dt, drop_state = True,
      resource_pattern = pat, tables_to_drop = to_drop,
      skip_state_wipe = (ssw \<or> pat = None), state_paths_to_drop = cps, drop_all = da,
      info = \<lparr>info_tables = map table_name to_drop, info_resource_states = [],
              info_resource_names = names, info_state_paths = [],
              info_schema_name = name sch, info_dataset_name = dataset_name p,
              info_drop_all = da, info_resource_pattern = pat\<rparr>,
      new_state = state_ref p\<rparr>"
  define r where "r = create_modified_state self0 p"
  define self1 where "self1 = (fst (snd r))\<lparr>new_state := fst r\<rparr>"
  have step: "DropCommand_init crx p rs sn sps da ssw =
      Inr (if skip_state_wipe self1 \<and> state_paths_to_drop self1 = []
           then self1\<lparr>drop_state := False\<rparr> else self1, snd (snd r))"
    using sch sel cps unfolding self1_def r_def self0_def
    by (simp add: DropCommand_init_def the_schema_key_def Let_def)
  have ds: "drop_state self0" by (simp add: self0_def)
  note cm = create_modified_state_eq [OF ds, of p, folded r_def]
  have fields1: "schema self1 = sch" "drop_tables self1 = dt" "resource_pattern self1 = pat"
    "tables_to_drop self1 = to_drop" "skip_state_wipe self1 = (ssw \<or> pat = None)"
    "state_paths_to_drop self1 = cps" "drop_all self1 = da" "new_state self1 = state_ref p"
    "drop_state self1"
    by (simp_all add: self1_def cm self0_def)
  have info1: "info self1 = (info self0)\<lparr>
         info_resource_states := info_resource_states (info self0) @
            concat (map (\<lambda>src. matched self0 (snd src)) (sources_state (store p (state_ref p)))),
         info_state_paths := info_state_paths (info self0) @
            concat (map (\<lambda>src. map (\<lambda>q. fst src @ ''.'' @ q)
                (resolve_paths (state_paths_to_drop self0) (wiped self0 (snd src))))
              (sources_state (store p (state_ref p))))\<rparr>"
    by (simp add: self1_def cm)
  have self_cases: "self = self1\<lparr>drop_state := False\<rparr> \<or> self = self1"
    and p1: "p1 = snd (snd r)"
    using assms step by (auto split: if_splits)
  have dstate: "drop_state self = (\<not> ((ssw \<or> pat = None) \<and> cps = []))"
    using assms step fields1 by (auto split: if_splits)
  have same: "schema self = schema self1" "drop_tables self = drop_tables self1"
    "resource_pattern self = resource_pattern self1" "tables_to_drop self = tables_to_drop self1"
    "skip_state_wipe self = skip_state_wipe self1" "state_paths_to_drop self = state_paths_to_drop self1"
    "drop_all self = drop_all self1" "new_state self = new_state self1" "info self = info self1"
    using self_cases by auto
  have w: "wiped self = wiped self0" and m: "matched self = matched self0"
    by (rule wiped_cong matched_cong; simp add: same fields1 self0_def)+
  have paths0: "state_paths_to_drop self0 = cps" by (simp add: self0_def)
  have p1': "p1 = p\<lparr>store := (store p)(state_ref p := set_sources (store p (state_ref p))
         (map (\<lambda>src. (fst src, delete_source_state_keys
                    (resolve_paths (state_paths_to_drop self) (wiped self (snd src))) (wiped self (snd src))))
            (sources_state (store p (state_ref p)))))\<rparr>"
    by (simp add: p1 cm w same fields1 paths0)
  have i: "info_tables (info self) = map table_name to_drop"
     "info_resource_names (info self) = names"
     "info_schema_name (info self) = name sch"
     "info_dataset_name (info self) = dataset_name p"
     "info_drop_all (info self) = da"
     "info_resource_pattern (info self) = pat"
     "info_resource_states (info self) =
        concat (map (\<lambda>src. matched self (snd src)) (sources_state (store p (state_ref p))))"
     "info_state_paths (info self) =
        concat (map (\<lambda>src. map (\<lambda>q. fst src @ ''.'' @ q)
                (resolve_paths (state_paths_to_drop self) (wiped self (snd src))))
              (sources_state (store p (state_ref p))))"
    by (simp_all add: same info1 w m fields1 paths0, simp_all add: self0_def)
  from sch sel cps same fields1 dstate i p1' show ?thesis
    by (intro exI [of _ sch] exI [of _ pat] exI [of _ to_drop] exI [of _ names] exI [of _ dt] exI [of _ cps])
       (simp only: simp_thms)
qed

lemma init_facts:
  assumes "DropCommand_init crx p rs sn sps da ssw = Inr (self, p1)"
  shows "map_of (schemas p) (the_schema_key p sn) = Some (schema self)"
    and "select_tables crx (schema self) (remdups (as_list rs)) =
           Inr (resource_pattern self, tables_to_drop self, info_resource_names (info self), drop_tables self)"
    and "compile_paths (as_list sps) = Inr (state_paths_to_drop self)"
    and "skip_state_wipe self = (ssw \<or> resource_pattern self = None)"
    and "drop_all self = da"
    and "new_state self = state_ref p"
    and "drop_state self = (\<not> (skip_state_wipe self \<and> state_paths_to_drop self = []))"
    and "info_tables (info self) = map table_name (tables_to_drop self)"
    and "info_resource_states (info self) =
        concat (map (\<lambda>src. matched self (snd src)) (sources_state (store p (state_ref p))))"
    and "info_state_paths (info self) =
        concat (map (\<lambda>src. map (\<lambda>q. fst src @ ''.'' @ q)
                (resolve_paths (state_paths_to_drop self) (wiped self (snd src))))
              (sources_state (store p (state_ref p))))"
    and "p1 = p\<lparr>store := (store p)(state_ref p := set_sources (store p (state_ref p))
         (map (\<lambda>src. (fst src, delete_source_state_keys
                    (resolve_paths (state_paths_to_drop self) (wiped self (snd src))) (wiped self (snd src))))
            (sources_state (store p (state_ref p)))))\<rparr>"
  using init_result [OF assms] by (elim exE conjE, simp)+

lemma select_tables_empty: "select_tables crx sch [] = Inr (None, [], [], False)"
  by (simp add: select_tables_def)


lemma select_tables_pattern:
  "select_tables crx sch sel = Inr (pat, to_drop, names, dt) \<Longrightarrow> pat = None \<longleftrightarrow> sel = []"
  by (auto simp: select_tables_def Let_def split: if_splits sum.splits)

lemma remdups_as_list_empty: "remdups xs = [] \<longleftrightarrow> xs = []"
  by (cases xs) (auto simp: remdups_eq_nil_iff)

lemma compile_paths_empty:
  "compile_paths ss = Inr cps \<Longrightarrow> cps = [] \<longleftrightarrow> ss = []"
  by (cases ss) (auto split: sum.splits)

lemma resolve_paths_none [simp]: "resolve_paths [] tree = []"
  by (simp add: resolve_paths_def)

subsection \<open>The state objects\<close>

lemma call_store:
  assumes "DropCommand_call c q = (r, c1, q1)"
  shows "(\<forall>a. a \<noteq> managed_ref q \<longrightarrow> store q1 a = store q a) \<and>
       (store q1 (managed_ref q) \<noteq> store q (managed_ref q) \<longrightarrow>
           \<not> has_pending_data q \<and> \<not> drop_all c \<and> drop_state c \<and> fst (tables_step c q) = None \<and>
           raises q (ManagedStateEnter True True) = None) \<and>
       (ManagedStateExit \<in> set (new_calls q q1) \<longrightarrow>
           store q1 (managed_ref q) =
             (if new_state c = managed_ref q then [] else dict_update [] (store q (new_state c))))"
  using assms
  by (auto simp: call_defs new_calls_def delete_pipeline_tables_def dict_update_def
           split: if_splits option.splits prod.splits)

lemma call_installs:
  assumes "DropCommand_call c q = (r, c1, q1)"
    and "\<not> has_pending_data q" and "\<not> drop_all c" and "drop_state c"
    and "fst (tables_step c q) = None" and "raises q (ManagedStateEnter True True) = None"
  shows "ManagedStateEnter True True \<in> set (new_calls q q1) \<and>
         store q1 (managed_ref q) =
           (if new_state c = managed_ref q then [] else dict_update [] (store q (new_state c)))"
  using assms
  by (auto simp: call_defs new_calls_def delete_pipeline_tables_def dict_update_def
           split: if_splits option.splits prod.splits)

lemma call_install_precedes_sync:
  assumes "DropCommand_call c q = (r, c1, q1)" and "drop_state c"
  shows "(Normalize \<in> set (new_calls q q1) \<longrightarrow>
            precedes (ManagedStateEnter True True) Normalize (new_calls q q1)) \<and>
         (Load True \<in> set (new_calls q q1) \<longrightarrow>
            precedes (ManagedStateEnter True True) (Load True) (new_calls q q1)) \<and>
         (WipeNormalizedPackages \<in> set (new_calls q q1) \<longrightarrow>
            precedes (ManagedStateEnter True True) WipeNormalizedPackages (new_calls q q1))"
  using assms
  by (auto simp: call_defs new_calls_def delete_pipeline_tables_def
           split: if_splits option.splits prod.splits)

lemma call_result_when_load_raises:
  assumes "DropCommand_call c q = (r, c1, q1)"
    and "Load True \<in> set (new_calls q q1)" and "raises q (Load True) = Some e"
  shows "r = (case raises q WipeNormalizedPackages of None \<Rightarrow> Some e | Some e' \<Rightarrow> Some e')"
proof (cases "raises q WipeNormalizedPackages")
  case None
  with assms show ?thesis
    by (auto simp: call_defs new_calls_def delete_pipeline_tables_def
             split: if_splits option.splits prod.splits)
next
  case (Some e')
  with assms show ?thesis
    by (auto simp: call_defs new_calls_def delete_pipeline_tables_def
             split: if_splits option.splits prod.splits)
qed

lemma call_fails_when_load_raises:
  assumes "DropCommand_call c q = (r, c1, q1)"
    and "Load True \<in> set (new_calls q q1)" and "raises q (Load True) = Some e"
  shows "r \<noteq> None"
  using call_result_when_load_raises [OF assms]
  by (simp split: option.splits)

text \<open>
  Claim C1, as amended. The constructor mutates, in place, the state object that
  \<open>pipeline.state\<close> handed out, and no other object of the store; \<open>_new_state\<close> refers
  to that same object. \<open>__call__\<close> writes no object but the managed state. It writes
  the managed state only when the pending-data check has passed, \<open>drop_all\<close> is off,
  \<open>drop_state\<close> is on, the table step has raised nothing and the managed-state context
  has been entered; and whenever these conditions hold it does install the content of
  the \<open>_new_state\<close> object, whatever the later steps do (if that object were the managed
  state itself, clearing it first would leave the managed state empty). The install
  precedes \<open>normalize\<close>, \<open>load\<close> and the wipe of the normalized packages, and a call
  whose load step raises fails: the result stays installed in a failed call.
\<close>

theorem state_mutated_in_handed_out_object_installed_in_call:
  "(DropCommand_init crx p rs sn sps da ssw = Inr (self, p1) \<longrightarrow>
       new_state self = state_ref p \<and>
       p1 = p\<lparr>store := (store p)(state_ref p := store p1 (state_ref p))\<rparr>) \<and>
   (DropCommand_call c q = (r, c1, q1) \<longrightarrow>
       (\<forall>a. a \<noteq> managed_ref q \<longrightarrow> store q1 a = store q a) \<and>
       (store q1 (managed_ref q) \<noteq> store q (managed_ref q) \<longrightarrow>
           \<not> has_pending_data q \<and> \<not> drop_all c \<and> drop_state c \<and> fst (tables_step c q) = None \<and>
           raises q (ManagedStateEnter True True) = None) \<and>
       (ManagedStateExit \<in> set (new_calls q q1) \<longrightarrow>
           store q1 (managed_ref q) =
             (if new_state c = managed_ref q then [] else dict_update [] (store q (new_state c)))) \<and>
       (\<not> has_pending_data q \<and> \<not> drop_all c \<and> drop_state c \<and> fst (tables_step c q) = None \<and>
        raises q (ManagedStateEnter True True) = None \<longrightarrow>
           ManagedStateEnter True True \<in> set (new_calls q q1) \<and>
           store q1 (managed_ref q) =
             (if new_state c = managed_ref q then [] else dict_update [] (store q (new_state c)))) \<and>
       (drop_state c \<longrightarrow>
           (Normalize \<in> set (new_calls q q1) \<longrightarrow>
              precedes (ManagedStateEnter True True) Normalize (new_calls q q1)) \<and>
           (Load True \<in> set (new_calls q q1) \<longrightarrow>
              precedes (ManagedStateEnter True True) (Load True) (new_calls q q1)) \<and>
           (WipeNormalizedPackages \<in> set (new_calls q q1) \<longrightarrow>
              precedes (ManagedStateEnter True True) WipeNormalizedPackages (new_calls q q1))) \<and>
       (Load True \<in> set (new_calls q q1) \<and> raises q (Load True) \<noteq> None \<longrightarrow> r \<noteq> None))"
proof -
  have fails: "r \<noteq> None"
    if "DropCommand_call c q = (r, c1, q1)" "Load True \<in> set (new_calls q q1)"
       "raises q (Load True) \<noteq> None"
  proof -
    from that(3) obtain e where "raises q (Load True) = Some e" by auto
    with that(1,2) show ?thesis by (rule call_fails_when_load_raises)
  qed
  from init_frame [of crx p rs sn sps da ssw self p1] call_store [of c q r c1 q1]
    call_installs [of c q r c1 q1] call_install_precedes_sync [of c q r c1 q1] fails
  show ?thesis by blast
qed

text \<open>
  The statement at the example pipeline whose load step raises, selector \<open>users\<close>: the
  constructor leaves the managed state (object 0) as it was; the call fails, leaves
  the handed-out object (object 1) as the constructor left it, and has installed its
  content, without the resource state \<open>users\<close>, as the managed state.
\<close>

theorem state_mutated_in_handed_out_object_installed_in_call_witness:
  "(case DropCommand_init exact_names load_failing_pipeline (Str ''users'') None (Strs []) False False of
      Inl e \<Rightarrow> False
    | Inr (c, p1) \<Rightarrow>
        new_state c = 1 \<and> store p1 0 = users_state \<and>
        (case DropCommand_call c p1 of
           (r, c1, q1) \<Rightarrow>
             r \<noteq> None \<and> store q1 1 = store p1 1 \<and>
             store q1 0 =
               [(''_state_version'', JVal ''7''),
                (''sources'',
                 JObj [(''shop'',
                        JObj [(''orders'', JObj [(''cursor'', JVal ''9'')]),
                              (''config'', JObj [(''token'', JVal ''t''), (''url'', JVal ''u'')])])])] \<and>
             precedes (ManagedStateEnter True True) (Load True) (new_calls p1 q1)))"
proof -
  let ?installed = "[(''_state_version'', JVal ''7''),
                (''sources'',
                 JObj [(''shop'',
                        JObj [(''orders'', JObj [(''cursor'', JVal ''9'')]),
                              (''config'', JObj [(''token'', JVal ''t''), (''url'', JVal ''u'')])])])]"
  have "\<exists>c p1. DropCommand_init exact_names load_failing_pipeline (Str ''users'') None (Strs []) False False = Inr (c, p1) \<and>
      \<not> drop_all c \<and> drop_state c \<and> fst (tables_step c p1) = None \<and> store p1 1 = ?installed \<and>
      Load True \<in> set (new_calls p1 (snd (snd (DropCommand_call c p1))))"
    by (simp add: init_defs call_eval load_failing_pipeline_def example_defs)
  then obtain c p1 where
    i: "DropCommand_init exact_names load_failing_pipeline (Str ''users'') None (Strs []) False False = Inr (c, p1)"
    and conds: "\<not> drop_all c" "drop_state c" "fst (tables_step c p1) = None"
    and st: "store p1 1 = ?installed"
    and reached: "Load True \<in> set (new_calls p1 (snd (snd (DropCommand_call c p1))))"
    by blast
  obtain r c1 q1 where call: "DropCommand_call c p1 = (r, c1, q1)"
    by (cases "DropCommand_call c p1") auto
  note at_example = state_mutated_in_handed_out_object_installed_in_call
         [of exact_names load_failing_pipeline "Str ''users''" None "Strs []" False False c p1 c p1 r c1 q1]
  from at_example i
  have n: "new_state c = state_ref load_failing_pipeline"
    and f: "p1 = load_failing_pipeline\<lparr>store := (store load_failing_pipeline)
                (state_ref load_failing_pipeline := store p1 (state_ref load_failing_pipeline))\<rparr>"
    by blast+
  have m: "managed_ref p1 = 0" and s0: "store p1 0 = users_state"
    and np: "\<not> has_pending_data p1"
    and enter: "raises p1 (ManagedStateEnter True True) = None"
    and load: "raises p1 (Load True) \<noteq> None"
    by (subst f, simp add: load_failing_pipeline_def users_pipeline_def)+
  have n1: "new_state c = 1"
    using n by (simp add: load_failing_pipeline_def users_pipeline_def)
  from at_example call have frame: "\<forall>a. a \<noteq> managed_ref p1 \<longrightarrow> store q1 a = store p1 a"
    and inst: "\<not> has_pending_data p1 \<and> \<not> drop_all c \<and> drop_state c \<and> fst (tables_step c p1) = None \<and>
        raises p1 (ManagedStateEnter True True) = None \<longrightarrow>
           store q1 (managed_ref p1) =
             (if new_state c = managed_ref p1 then [] else dict_update [] (store p1 (new_state c)))"
    and ord: "drop_state c \<longrightarrow> Load True \<in> set (new_calls p1 q1) \<longrightarrow>
              precedes (ManagedStateEnter True True) (Load True) (new_calls p1 q1)"
    and fails: "Load True \<in> set (new_calls p1 q1) \<and> raises p1 (Load True) \<noteq> None \<longrightarrow> r \<noteq> None"
    by blast+
  from frame m have a: "store q1 1 = store p1 1" by simp
  from inst np conds enter m n1 st have b: "store q1 0 = ?installed"
    by (simp add: dict_update_def)
  from reached call have reached': "Load True \<in> set (new_calls p1 q1)" by simp
  from ord conds reached' have o: "precedes (ManagedStateEnter True True) (Load True) (new_calls p1 q1)"
    by simp
  from fails reached' load have e: "r \<noteq> None" by simp
  from i call n1 s0 a b o e show ?thesis by simp
qed

text \<open>
  The install step runs before \<open>normalize\<close> and \<open>load\<close>. When \<open>load\<close> raises, the
  call fails and the managed state has nevertheless been replaced: the resource state
  \<open>users\<close> is gone from it.
\<close>

theorem state_installed_only_on_success_counterexample:
  "fst (drop_cmd exact_names load_failing_pipeline (Str ''users'') None (Strs []) False False) =
     Some (Raised ''load failed'') \<and>
   sources_state (store load_failing_pipeline (managed_ref load_failing_pipeline)) =
     [(''shop'', JObj [(''users'', JObj [(''cursor'', JVal ''41'')]),
                      (''orders'', JObj [(''cursor'', JVal ''9'')]),
                      (''config'', JObj [(''token'', JVal ''t''), (''url'', JVal ''u'')])])] \<and>
   sources_state (store (snd (drop_cmd exact_names load_failing_pipeline (Str ''users'') None (Strs []) False False))
                   (managed_ref load_failing_pipeline)) =
     [(''shop'', JObj [(''orders'', JObj [(''cursor'', JVal ''9'')]),
                      (''config'', JObj [(''token'', JVal ''t''), (''url'', JVal ''u'')])])]"
  by (simp add: drop_cmd_def init_defs call_eval load_failing_pipeline_def example_defs)

subsection \<open>Pending data\<close>

text \<open>
  Claim C2. With \<open>has_pending_data\<close> set, calling the command raises
  \<open>PipelineHasPendingDataException\<close> and returns the command and the pipeline as they
  were: no collaborator is reached, no object of the store is written, the schema clone
  is not touched. For \<open>drop\<close>, which constructs the command first, the same error is
  raised and the pipeline differs from the initial one at most in the object that
  \<open>pipeline.state\<close> handed out to the constructor.
\<close>

theorem pending_data_blocks_drop:
  assumes "has_pending_data p"
  shows "DropCommand_call self p =
           (Some (PipelineHasPendingDataException (pipeline_name p) (pipelines_dir p)), self, p) \<and>
         (\<forall>c p1. DropCommand_init crx p rs sn sps da ssw = Inr (c, p1) \<longrightarrow>
            drop_cmd crx p rs sn sps da ssw =
              (Some (PipelineHasPendingDataException (pipeline_name p) (pipelines_dir p)), p1) \<and>
            p1 = p\<lparr>store := (store p)(state_ref p := store p1 (state_ref p))\<rparr>)"
proof -
  have call: "\<And>c q. has_pending_data q \<Longrightarrow> DropCommand_call c q =
      (Some (PipelineHasPendingDataException (pipeline_name q) (pipelines_dir q)), c, q)"
    by (simp add: DropCommand_call_def)
  have "drop_cmd crx p rs sn sps da ssw =
          (Some (PipelineHasPendingDataException (pipeline_name p) (pipelines_dir p)), p1) \<and>
        p1 = p\<lparr>store := (store p)(state_ref p := store p1 (state_ref p))\<rparr>"
    if i: "DropCommand_init crx p rs sn sps da ssw = Inr (c, p1)" for c p1
  proof -
    from init_frame [OF i]
    have f: "p1 = p\<lparr>store := (store p)(state_ref p := store p1 (state_ref p))\<rparr>" by simp
    then have "has_pending_data p1 = has_pending_data p"
      and "pipeline_name p1 = pipeline_name p" and "pipelines_dir p1 = pipelines_dir p"
      by (metis Pipeline.select_convs Pipeline.surjective Pipeline.update_convs)+
    with assms call [of p1 c] i f show ?thesis
      by (simp add: drop_cmd_def)
  qed
  with call [OF assms] show ?thesis by blast
qed

text \<open>
  The statement at the example pipeline with pending data: the error is raised, no
  call is traced and the managed state is unchanged.
\<close>

theorem pending_data_blocks_drop_witness:
  "has_pending_data pending_pipeline \<and>
   fst (drop_cmd exact_names pending_pipeline (Str ''users'') None (Strs [''config.token'']) False False) =
     Some (PipelineHasPendingDataException ''shop_pipeline'' ''/var/dlt'') \<and>
   trace (snd (drop_cmd exact_names pending_pipeline (Str ''users'') None (Strs [''config.token'']) False False)) = [] \<and>
   store (snd (drop_cmd exact_names pending_pipeline (Str ''users'') None (Strs [''config.token'']) False False)) 0 = users_state"
proof -
  have pend: "has_pending_data pending_pipeline"
    by (simp add: pending_pipeline_def)
  have "\<exists>c p1. DropCommand_init exact_names pending_pipeline (Str ''users'') None (Strs [''config.token'']) False False = Inr (c, p1)"
    by (simp add: init_defs example_defs pending_pipeline_def)
  then obtain c p1 where
    i: "DropCommand_init exact_names pending_pipeline (Str ''users'') None (Strs [''config.token'']) False False = Inr (c, p1)"
    by blast
  from pending_data_blocks_drop [OF pend, of c exact_names "Str ''users''" None "Strs [''config.token'']" False False] i
  have d: "drop_cmd exact_names pending_pipeline (Str ''users'') None (Strs [''config.token'']) False False =
          (Some (PipelineHasPendingDataException (pipeline_name pending_pipeline) (pipelines_dir pending_pipeline)), p1)"
    and f: "p1 = pending_pipeline\<lparr>store := (store pending_pipeline)(state_ref pending_pipeline := store p1 (state_ref pending_pipeline))\<rparr>"
    by blast+
  have "trace p1 = []" "store p1 0 = users_state"
    by (subst f, simp add: pending_pipeline_def users_pipeline_def)+
  with pend d show ?thesis
    by (simp add: pending_pipeline_def users_pipeline_def)
qed

subsection \<open>Resets and path deletions\<close>

text \<open>
  Claim C3, as amended. For every source of the state tree the resets are applied
  first; the paths are resolved against the source's state node as the resets left it,
  the resolved paths are deleted from that same node, and they are reported, qualified
  by the source name, in \<open>info\<close>.
\<close>

theorem paths_resolved_after_resets:
  assumes "DropCommand_init crx p rs sn sps da ssw = Inr (self, p1)"
  shows "sources_state (store p1 (state_ref p)) =
           map (\<lambda>src. (fst src,
                  delete_source_state_keys
                    (resolve_paths (state_paths_to_drop self) (wiped self (snd src)))
                    (wiped self (snd src))))
               (sources_state (store p (state_ref p))) \<and>
         info_state_paths (info self) =
           concat (map (\<lambda>src. map (\<lambda>q. fst src @ ''.'' @ q)
                          (resolve_paths (state_paths_to_drop self) (wiped self (snd src))))
                   (sources_state (store p (state_ref p)))) \<and>
         info_resource_states (info self) =
           concat (map (\<lambda>src. matched self (snd src)) (sources_state (store p (state_ref p))))"
proof -
  note f = init_facts [OF assms]
  have "store p1 (state_ref p) = set_sources (store p (state_ref p))
         (map (\<lambda>src. (fst src, delete_source_state_keys
                    (resolve_paths (state_paths_to_drop self) (wiped self (snd src))) (wiped self (snd src))))
            (sources_state (store p (state_ref p))))"
    by (subst f(11)) simp
  then have "sources_state (store p1 (state_ref p)) =
         map (\<lambda>src. (fst src, delete_source_state_keys
                    (resolve_paths (state_paths_to_drop self) (wiped self (snd src))) (wiped self (snd src))))
            (sources_state (store p (state_ref p)))"
    by (simp add: sources_state_set_sources)
  with f(9) f(10) show ?thesis by simp
qed

text \<open>
  The statement at the example pipeline, selector \<open>users\<close> and paths \<open>users.cursor\<close>
  and \<open>config.token\<close>: only \<open>config.token\<close> resolves.
\<close>

theorem paths_resolved_after_resets_witness:
  "(case DropCommand_init exact_names users_pipeline (Str ''users'') None
           (Strs [''users.cursor'', ''config.token'']) False False of
      Inl e \<Rightarrow> False
    | Inr (c, p1) \<Rightarrow>
        info_resource_states (info c) = [''users''] \<and>
        info_state_paths (info c) = [''shop.config.token''] \<and>
        sources_state (store p1 1) =
          [(''shop'', JObj [(''orders'', JObj [(''cursor'', JVal ''9'')]),
                           (''config'', JObj [(''url'', JVal ''u'')])])])"
proof -
  have "\<exists>c p1. DropCommand_init exact_names users_pipeline (Str ''users'') None
           (Strs [''users.cursor'', ''config.token'']) False False = Inr (c, p1) \<and>
      skip_state_wipe c = False \<and> resource_pattern c = Some (\<lambda>n. n \<in> set [''users'']) \<and>
      state_paths_to_drop c = [[''users'', ''cursor''], [''config'', ''token'']]"
    by (simp add: init_defs example_defs)
  then obtain c p1 where
    i: "DropCommand_init exact_names users_pipeline (Str ''users'') None
           (Strs [''users.cursor'', ''config.token'']) False False = Inr (c, p1)"
    and f: "skip_state_wipe c = False" "resource_pattern c = Some (\<lambda>n. n \<in> set [''users''])"
      "state_paths_to_drop c = [[''users'', ''cursor''], [''config'', ''token'']]"
    by blast
  from paths_resolved_after_resets [OF i] f
  have "info_resource_states (info c) = [''users''] \<and>
        info_state_paths (info c) = [''shop.config.token''] \<and>
        sources_state (store p1 1) =
          [(''shop'', JObj [(''orders'', JObj [(''cursor'', JVal ''9'')]),
                           (''config'', JObj [(''url'', JVal ''u'')])])]"
    by (simp add: wiped_def matched_def example_defs sources_state_def resolve_paths_def
          delete_source_state_keys_def)
  with i show ?thesis by simp
qed

text \<open>
  With the selector \<open>users\<close> and the path \<open>users.cursor\<close> the code reports no state
  path, since the path is resolved after the reset of \<open>users\<close>; resolving before the
  reset reports \<open>shop.users.cursor\<close>.
\<close>

theorem paths_resolved_before_resets_counterexample:
  "info_state_paths (fst (process_source cursor_command (info cursor_command, []) shop_source)) = [] \<and>
   info_state_paths (fst (process_source_resolving_first cursor_command (info cursor_command, []) shop_source))
     = [''shop.users.cursor''] \<and>
   map_sum id (\<lambda>r. info_state_paths (info (fst r)))
     (DropCommand_init exact_names users_pipeline (Str ''users'') None (Str ''users.cursor'') False False)
     = Inr []"
  by (simp add: process_source_def process_source_resolving_first_def cursor_command_def
        users_command_def shop_source_def init_defs example_defs)

subsection \<open>The \<open>drop_state\<close> flag\<close>

text \<open>
  Claim C4, as amended. \<open>drop_state\<close> is true iff state paths were requested, or
  \<open>skip_state_wipe\<close> is off and the resource selector is non-empty. Hence it is true
  whenever a resource state was reset or a state path was resolved.
\<close>

theorem drop_state_follows_requested_paths:
  assumes "DropCommand_init crx p rs sn sps da ssw = Inr (self, p1)"
  shows "drop_state self = (as_list sps \<noteq> [] \<or> (\<not> ssw \<and> as_list rs \<noteq> [])) \<and>
         (info_resource_states (info self) \<noteq> [] \<or> info_state_paths (info self) \<noteq> [] \<longrightarrow> drop_state self)"
proof -
  note f = init_facts [OF assms]
  have pn: "resource_pattern self = None \<longleftrightarrow> as_list rs = []"
    using select_tables_pattern [OF f(2)] by (simp add: remdups_as_list_empty)
  have first: "drop_state self = (as_list sps \<noteq> [] \<or> (\<not> ssw \<and> as_list rs \<noteq> []))"
    using f(7) f(4) pn compile_paths_empty [OF f(3)] by auto
  have a: "drop_state self" if "info_resource_states (info self) \<noteq> []"
  proof -
    from that f(9) have "\<not> skip_state_wipe self"
      by (auto simp: matched_def split: if_splits)
    with f(7) show ?thesis by simp
  qed
  have b: "drop_state self" if "info_state_paths (info self) \<noteq> []"
  proof -
    from that f(10) have "state_paths_to_drop self \<noteq> []"
      by auto
    with f(7) show ?thesis by simp
  qed
  from first a b show ?thesis by blast
qed

text \<open>
  The statement at the example pipeline, empty selector and path \<open>config.token\<close>.
\<close>

theorem drop_state_follows_requested_paths_witness:
  "(case DropCommand_init exact_names users_pipeline (Strs []) None (Strs [''config.token'']) False False of
      Inl e \<Rightarrow> False
    | Inr (c, p1) \<Rightarrow> drop_state c \<and> info_state_paths (info c) = [''shop.config.token''])"
proof -
  have "\<exists>c p1. DropCommand_init exact_names users_pipeline (Strs []) None (Strs [''config.token'']) False False = Inr (c, p1) \<and>
      info_state_paths (info c) = [''shop.config.token'']"
    by (simp add: init_defs example_defs)
  then obtain c p1 where
    i: "DropCommand_init exact_names users_pipeline (Strs []) None (Strs [''config.token'']) False False = Inr (c, p1)"
    and s: "info_state_paths (info c) = [''shop.config.token'']"
    by blast
  from drop_state_follows_requested_paths [OF i] have "drop_state c" by simp
  with i s show ?thesis by simp
qed

text \<open>
  With an empty selector and a requested path that no source holds, \<open>drop_state\<close> is
  true although nothing was reset and no path resolved.
\<close>

theorem drop_state_iff_something_resolved_counterexample:
  "map_sum id (\<lambda>r. (drop_state (fst r), info_resource_states (info (fst r)), info_state_paths (info (fst r))))
     (DropCommand_init exact_names users_pipeline (Strs []) None (Strs [''config.missing'']) False False)
   = Inr (True, [], [])"
  by (simp add: init_defs example_defs)

subsection \<open>The planned tables\<close>





lemma set_first_occurrences [simp]: "set (first_occurrences xs) = set xs"
  by (induction xs) auto

lemma distinct_first_occurrences [simp]: "distinct (first_occurrences xs)"
  by (induction xs) auto







lemma call_without_tables:
  assumes "\<not> drop_tables self" and "DropCommand_call self p = (r, self2, p2)"
  shows "self2 = self \<and> (\<forall>c \<in> set (new_calls p p2). \<not> table_step_call c) \<and>
         (\<not> drop_all self \<longrightarrow> (\<forall>c \<in> set (new_calls p p2). \<forall>n. c \<noteq> DropDataset n))"
  using assms
  by (auto simp: call_defs new_calls_def split: if_splits option.splits prod.splits)

text \<open>
  Claim C6. With an empty resource selector \<open>drop_tables\<close> is false, the plan holds no
  table, no resource name and no reset, whatever state paths are requested; calling
  the command leaves the schema clone as it is and never reaches the destination's
  \<open>drop_tables\<close> nor \<open>save_schema\<close>, and without \<open>drop_all\<close> it does not drop the
  dataset either.
\<close>

theorem empty_selector_drops_no_table:
  assumes "DropCommand_init crx p rs sn sps da ssw = Inr (self, p1)"
    and "as_list rs = []"
    and "DropCommand_call self p1 = (r, self2, p2)"
  shows "\<not> drop_tables self \<and> tables_to_drop self = [] \<and> info_tables (info self) = [] \<and>
         info_resource_names (info self) = [] \<and> info_resource_states (info self) = [] \<and>
         self2 = self \<and> (\<forall>c \<in> set (new_calls p1 p2). \<not> table_step_call c) \<and>
         (\<not> da \<longrightarrow> (\<forall>c \<in> set (new_calls p1 p2). \<forall>n. c \<noteq> DropDataset n))"
proof -
  note f = init_facts [OF assms(1)]
  from f(2) assms(2) have plan: "resource_pattern self = None" "tables_to_drop self = []"
    "info_resource_names (info self) = []" "\<not> drop_tables self"
    by (simp_all add: select_tables_empty)
  from f(4) plan(1) have "skip_state_wipe self" by simp
  with f(9) have rs: "info_resource_states (info self) = []"
    by (simp add: matched_def)
  from call_without_tables [OF plan(4) assms(3)] f(5) f(8) plan rs show ?thesis
    by simp
qed

text \<open>
  Scenario D: empty selector and path \<open>config.token\<close>. No table call is made, and
  \<open>config.token\<close> is deleted from the source's state in the managed state.
\<close>

theorem empty_selector_drops_no_table_witness:
  "(case DropCommand_init exact_names users_pipeline (Strs []) None (Strs [''config.token'']) False False of
      Inl e \<Rightarrow> False
    | Inr (c, p1) \<Rightarrow>
        \<not> drop_tables c \<and> tables_to_drop c = [] \<and> info_resource_states (info c) = [] \<and>
        (\<forall>x \<in> set (new_calls p1 (snd (snd (DropCommand_call c p1)))). \<not> table_step_call x)) \<and>
   fst (drop_cmd exact_names users_pipeline (Strs []) None (Strs [''config.token'']) False False) = None \<and>
   trace (snd (drop_cmd exact_names users_pipeline (Strs []) None (Strs [''config.token'']) False False)) =
     [ManagedStateEnter True True, ManagedStateExit, Normalize, Load True] \<and>
   sources_state (store (snd (drop_cmd exact_names users_pipeline (Strs []) None (Strs [''config.token'']) False False)) 0) =
     [(''shop'', JObj [(''users'', JObj [(''cursor'', JVal ''41'')]),
                      (''orders'', JObj [(''cursor'', JVal ''9'')]),
                      (''config'', JObj [(''url'', JVal ''u'')])])]"
proof -
  have "\<exists>c p1. DropCommand_init exact_names users_pipeline (Strs []) None (Strs [''config.token'']) False False = Inr (c, p1)"
    by (simp add: init_defs example_defs)
  then obtain c p1 where
    i: "DropCommand_init exact_names users_pipeline (Strs []) None (Strs [''config.token'']) False False = Inr (c, p1)"
    by blast
  obtain r c2 p2 where call: "DropCommand_call c p1 = (r, c2, p2)"
    by (cases "DropCommand_call c p1") auto
  have e: "as_list (Strs []) = []" by simp
  from empty_selector_drops_no_table [OF i e call] call
  have a: "\<not> drop_tables c \<and> tables_to_drop c = [] \<and> info_resource_states (info c) = [] \<and>
        (\<forall>x \<in> set (new_calls p1 (snd (snd (DropCommand_call c p1)))). \<not> table_step_call x)"
    by simp
  have b: "fst (drop_cmd exact_names users_pipeline (Strs []) None (Strs [''config.token'']) False False) = None \<and>
   trace (snd (drop_cmd exact_names users_pipeline (Strs []) None (Strs [''config.token'']) False False)) =
     [ManagedStateEnter True True, ManagedStateExit, Normalize, Load True] \<and>
   sources_state (store (snd (drop_cmd exact_names users_pipeline (Strs []) None (Strs [''config.token'']) False False)) 0) =
     [(''shop'', JObj [(''users'', JObj [(''cursor'', JVal ''41'')]),
                      (''orders'', JObj [(''cursor'', JVal ''9'')]),
                      (''config'', JObj [(''url'', JVal ''u'')])])]"
    by (simp add: drop_cmd_def init_defs call_defs example_defs dict_update_def)
  from a b i show ?thesis by simp
qed

subsection \<open>Dropping everything\<close>

text \<open>
  Claim C7, as amended. When \<open>drop_all\<close> is set and no data is pending, the call
  drops the dataset of the command's schema, then calls \<open>pipeline.drop\<close>, then
  \<open>sync_destination\<close>, stopping at the first of them that raises; it makes no other
  call, writes no state object and leaves the command as it is. The outcome is the
  same for every command with \<open>drop_all\<close> set on the same schema: the plan is not used.
\<close>

theorem drop_all_apply_ignores_plan:
  assumes "\<not> has_pending_data p" and "drop_all self" and "DropCommand_call self p = (r, self1, p1)"
  shows "self1 = self \<and> store p1 = store p \<and>
     (case raises p (DropDataset (name (schema self))) of
        Some e \<Rightarrow> r = Some e \<and> new_calls p p1 = [DropDataset (name (schema self))]
      | None \<Rightarrow>
          (case raises p PipelineDrop of
             Some e \<Rightarrow> r = Some e \<and> new_calls p p1 = [DropDataset (name (schema self)), PipelineDrop]
           | None \<Rightarrow> r = raises p SyncDestination \<and>
               new_calls p p1 = [DropDataset (name (schema self)), PipelineDrop, SyncDestination])) \<and>
     (\<forall>other. drop_all other \<and> name (schema other) = name (schema self) \<longrightarrow>
        fst (DropCommand_call other p) = r \<and> snd (snd (DropCommand_call other p)) = p1)"
proof -
  let ?n = "name (schema self)"
  show ?thesis
  proof (cases "raises p (DropDataset ?n)")
    case (Some e)
    have any: "DropCommand_call c p = (Some e, c, p\<lparr>trace := trace p @ [DropDataset ?n]\<rparr>)"
      if "drop_all c" "name (schema c) = ?n" for c
      using that assms(1) Some
      by (simp add: DropCommand_call_def DropCommand_drop_all_def invoke_def)
    from any [of self] assms(2,3)
    have "r = Some e" "self1 = self" "p1 = p\<lparr>trace := trace p @ [DropDataset ?n]\<rparr>"
      by simp_all
    with Some any show ?thesis
      by (simp add: new_calls_def)
  next
    case None
    note dataset = None
    show ?thesis
    proof (cases "raises p PipelineDrop")
      case (Some e)
      have any: "DropCommand_call c p = (Some e, c, p\<lparr>trace := trace p @ [DropDataset ?n, PipelineDrop]\<rparr>)"
        if "drop_all c" "name (schema c) = ?n" for c
        using that assms(1) Some dataset
        by (simp add: DropCommand_call_def DropCommand_drop_all_def invoke_def)
      from any [of self] assms(2,3)
      have "r = Some e" "self1 = self" "p1 = p\<lparr>trace := trace p @ [DropDataset ?n, PipelineDrop]\<rparr>"
        by simp_all
      with Some dataset any show ?thesis
        by (simp add: new_calls_def)
    next
      case None
      have any: "DropCommand_call c p =
          (raises p SyncDestination, c, p\<lparr>trace := trace p @ [DropDataset ?n, PipelineDrop, SyncDestination]\<rparr>)"
        if "drop_all c" "name (schema c) = ?n" for c
        using that assms(1) None dataset
        by (simp add: DropCommand_call_def DropCommand_drop_all_def invoke_def)
      from any [of self] assms(2,3)
      have "r = raises p SyncDestination" "self1 = self"
        "p1 = p\<lparr>trace := trace p @ [DropDataset ?n, PipelineDrop, SyncDestination]\<rparr>"
        by simp_all
      with None dataset any show ?thesis
        by (simp add: new_calls_def)
    qed
  qed
qed

text \<open>
  The statement at the example pipeline.
\<close>

theorem drop_all_apply_ignores_plan_witness:
  "\<not> has_pending_data users_pipeline \<and> drop_all drop_all_command \<and>
   fst (DropCommand_call drop_all_command users_pipeline) = None \<and>
   store (snd (snd (DropCommand_call drop_all_command users_pipeline))) = store users_pipeline \<and>
   new_calls users_pipeline (snd (snd (DropCommand_call drop_all_command users_pipeline))) =
     [DropDataset ''main'', PipelineDrop, SyncDestination]"
proof -
  have np: "\<not> has_pending_data users_pipeline" by (simp add: users_pipeline_def)
  have da: "drop_all drop_all_command" by (simp add: drop_all_command_def)
  obtain r c1 p1 where call: "DropCommand_call drop_all_command users_pipeline = (r, c1, p1)"
    by (cases "DropCommand_call drop_all_command users_pipeline") auto
  have n: "name (schema drop_all_command) = ''main''"
    by (simp add: drop_all_command_def users_command_def users_schema_def)
  have q: "raises users_pipeline = (\<lambda>c. None)" by (simp add: users_pipeline_def)
  from drop_all_apply_ignores_plan [OF np da call]
  have "store p1 = store users_pipeline \<and> r = None \<and>
        new_calls users_pipeline p1 = [DropDataset ''main'', PipelineDrop, SyncDestination]"
    by (simp add: n q)
  with np da call show ?thesis by simp
qed

text \<open>
  Planning is not bypassed: with \<open>drop_all\<close> set the constructor still enumerates the
  tables of the selected resource, resets its resource state in the handed-out state
  object and reports both, so the selector changes the plan and that object.
\<close>

theorem drop_all_bypasses_planning_counterexample:
  "map_sum id (\<lambda>r. (info_tables (info (fst r)), info_resource_states (info (fst r)),
                     sources_state (store (snd r) (state_ref users_pipeline))))
     (DropCommand_init exact_names users_pipeline (Str ''users'') None (Strs []) True False)
   = Inr ([''users__addresses'', ''users''], [''users''],
          [(''shop'', JObj [(''orders'', JObj [(''cursor'', JVal ''9'')]),
                           (''config'', JObj [(''token'', JVal ''t''), (''url'', JVal ''u'')])])]) \<and>
   map_sum id (\<lambda>r. (info_tables (info (fst r)), info_resource_states (info (fst r)),
                     sources_state (store (snd r) (state_ref users_pipeline))))
     (DropCommand_init exact_names users_pipeline (Strs []) None (Strs []) True False)
   = Inr ([], [],
          [(''shop'', JObj [(''users'', JObj [(''cursor'', JVal ''41'')]),
                           (''orders'', JObj [(''cursor'', JVal ''9'')]),
                           (''config'', JObj [(''token'', JVal ''t''), (''url'', JVal ''u'')])])])"
  by (simp add: init_defs example_defs)

subsection \<open>Failure of the final load\<close>

lemma load_failure_tail:
  assumes "DropCommand_call self p = (r, self1, p1)"
    and "Load True \<in> set (new_calls p p1)"
    and "raises p (Load True) = Some e"
    and "raises p WipeNormalizedPackages = None"
  shows "r = Some e \<and>
     List.drop (length (new_calls p p1) - 2) (new_calls p p1) = [Load True, WipeNormalizedPackages] \<and>
     Load True \<notin> set (take (length (new_calls p p1) - 2) (new_calls p p1)) \<and>
     WipeNormalizedPackages \<notin> set (take (length (new_calls p p1) - 2) (new_calls p p1))"
  using assms
  by (auto simp: call_defs new_calls_def split: if_splits option.splits prod.splits)

text \<open>
  Claim C8. Whenever the call reaches the forced load step and that step raises, the
  normalized packages are wiped right after it, nothing else is called, the load step
  has run once, and the error the call raises is the one the load step raised
  (provided wiping itself does not raise).
\<close>

theorem load_failure_wipes_and_reraises:
  assumes "DropCommand_call self p = (r, self1, p1)"
    and "Load True \<in> set (new_calls p p1)"
    and "raises p (Load True) = Some e"
    and "raises p WipeNormalizedPackages = None"
  shows "r = Some e \<and>
         (\<exists>pre. new_calls p p1 = pre @ [Load True, WipeNormalizedPackages] \<and>
                Load True \<notin> set pre \<and> WipeNormalizedPackages \<notin> set pre)"
proof -
  let ?evs = "new_calls p p1"
  let ?pre = "take (length ?evs - 2) ?evs"
  from load_failure_tail [OF assms]
  have r: "r = Some e" and tail: "List.drop (length ?evs - 2) ?evs = [Load True, WipeNormalizedPackages]"
    and pre: "Load True \<notin> set ?pre" "WipeNormalizedPackages \<notin> set ?pre"
    by blast+
  have "?evs = ?pre @ List.drop (length ?evs - 2) ?evs" by simp
  with tail have "?evs = ?pre @ [Load True, WipeNormalizedPackages]" by simp
  with r pre show ?thesis by blast
qed

text \<open>
  The statement at the example pipeline with a failing load step.
\<close>

theorem load_failure_wipes_and_reraises_witness:
  "fst (DropCommand_call users_command load_failing_pipeline) = Some (Raised ''load failed'') \<and>
   new_calls load_failing_pipeline (snd (snd (DropCommand_call users_command load_failing_pipeline))) =
     [DropTables ''main'' [''users__addresses'', ''users''],
      ManagedStateEnter True True, ManagedStateExit,
      SaveSchema \<lparr>name = ''main'',
                  tables = [\<lparr>table_name = ''orders'', resource = ''orders'', parent = None\<rparr>],
                  version = 4\<rparr>,
      Normalize, Load True, WipeNormalizedPackages]"
proof -
  have ev: "new_calls load_failing_pipeline (snd (snd (DropCommand_call users_command load_failing_pipeline))) =
     [DropTables ''main'' [''users__addresses'', ''users''],
      ManagedStateEnter True True, ManagedStateExit,
      SaveSchema \<lparr>name = ''main'',
                  tables = [\<lparr>table_name = ''orders'', resource = ''orders'', parent = None\<rparr>],
                  version = 4\<rparr>,
      Normalize, Load True, WipeNormalizedPackages]"
    by (simp add: call_eval load_failing_pipeline_def example_defs)
  obtain r c1 p1 where call: "DropCommand_call users_command load_failing_pipeline = (r, c1, p1)"
    by (cases "DropCommand_call users_command load_failing_pipeline") auto
  from ev call have reached: "Load True \<in> set (new_calls load_failing_pipeline p1)" by simp
  have l: "raises load_failing_pipeline (Load True) = Some (Raised ''load failed'')"
    and w: "raises load_failing_pipeline WipeNormalizedPackages = None"
    by (simp_all add: load_failing_pipeline_def)
  from load_failure_wipes_and_reraises [OF call reached l w] have "r = Some (Raised ''load failed'')"
    by simp
  with call ev show ?thesis by simp
qed

subsection \<open>Removing the planned tables from the schema\<close>

lemma del_tables_result:
  "del_tables ns ts = (None, ts') \<Longrightarrow> ts' = filter (\<lambda>t. table_name t \<notin> set ns) ts"
proof (induction ns arbitrary: ts)
  case Nil
  then show ?case by simp
next
  case (Cons n ns)
  from Cons.prems have present: "n \<in> set (map table_name ts)"
    by (auto split: if_splits)
  with Cons.prems have "del_tables ns (filter (\<lambda>t. table_name t \<noteq> n) ts) = (None, ts')"
    by simp
  from Cons.IH [OF this] show ?case
    by (simp add: conj_commute)
qed

lemma del_tables_succeeds:
  "distinct ns \<Longrightarrow> set ns \<subseteq> set (map table_name ts) \<Longrightarrow> fst (del_tables ns ts) = None"
proof (induction ns arbitrary: ts)
  case Nil
  then show ?case by simp
next
  case (Cons n ns)
  have "set ns \<subseteq> set (map table_name (filter (\<lambda>t. table_name t \<noteq> n) ts))"
  proof
    fix x assume x: "x \<in> set ns"
    with Cons.prems obtain t where "t \<in> set ts" "table_name t = x" by auto
    moreover from x Cons.prems have "x \<noteq> n" by auto
    ultimately show "x \<in> set (map table_name (filter (\<lambda>t. table_name t \<noteq> n) ts))" by auto
  qed
  moreover have "distinct ns" using Cons.prems by simp
  ultimately have "fst (del_tables ns (filter (\<lambda>t. table_name t \<noteq> n) ts)) = None"
    by (rule Cons.IH [rotated])
  with Cons.prems show ?case by simp
qed

text \<open>
  Claim C9. When \<open>_delete_pipeline_tables\<close> returns, the schema has lost exactly the
  tables named in the plan and its version has grown by one, whatever the number of
  tables; it returns whenever the planned names are distinct and present in the schema.
\<close>

theorem delete_pipeline_tables_bumps_version_once:
  "(fst (delete_pipeline_tables self) = None \<longrightarrow>
      version (schema (snd (delete_pipeline_tables self))) = version (schema self) + 1 \<and>
      tables (schema (snd (delete_pipeline_tables self))) =
        filter (\<lambda>t. table_name t \<notin> set (map table_name (tables_to_drop self))) (tables (schema self))) \<and>
   (distinct (map table_name (tables_to_drop self)) \<and>
    set (map table_name (tables_to_drop self)) \<subseteq> set (map table_name (tables (schema self)))
      \<longrightarrow> fst (delete_pipeline_tables self) = None)"
proof -
  obtain r ts where d: "del_tables (map table_name (tables_to_drop self)) (tables (schema self)) = (r, ts)"
    by (cases "del_tables (map table_name (tables_to_drop self)) (tables (schema self))")
  have a: "fst (delete_pipeline_tables self) = r"
    using d by (cases r) (simp_all add: delete_pipeline_tables_def)
  have b: "r = None \<Longrightarrow> schema (snd (delete_pipeline_tables self)) = bump_version ((schema self)\<lparr>tables := ts\<rparr>)"
    using d by (simp add: delete_pipeline_tables_def)
  have c: "r = None \<Longrightarrow> ts = filter (\<lambda>t. table_name t \<notin> set (map table_name (tables_to_drop self))) (tables (schema self))"
    using d del_tables_result by blast
  have e: "distinct (map table_name (tables_to_drop self)) \<Longrightarrow>
    set (map table_name (tables_to_drop self)) \<subseteq> set (map table_name (tables (schema self))) \<Longrightarrow> r = None"
    using del_tables_succeeds [of "map table_name (tables_to_drop self)" "tables (schema self)"] d by simp
  show ?thesis
    using a b c e by (simp add: bump_version_def)
qed

text \<open>
  The statement at the example command: two tables removed, version 3 becomes 4.
\<close>

theorem delete_pipeline_tables_bumps_version_once_witness:
  "fst (delete_pipeline_tables users_command) = None \<and>
   version (schema (snd (delete_pipeline_tables users_command))) = 4 \<and>
   tables (schema (snd (delete_pipeline_tables users_command))) =
     [\<lparr>table_name = ''orders'', resource = ''orders'', parent = None\<rparr>]"
proof -
  have h: "distinct (map table_name (tables_to_drop users_command)) \<and>
    set (map table_name (tables_to_drop users_command)) \<subseteq> set (map table_name (tables (schema users_command)))"
    by (simp add: users_command_def users_schema_def)
  from delete_pipeline_tables_bumps_version_once [of users_command] h
  show ?thesis
    by (simp add: users_command_def users_schema_def)
qed

subsection \<open>String arguments\<close>

text \<open>
  Claim C10. A single string passed as \<open>resources\<close> or as \<open>state_paths\<close> gives the same
  command, the same working state and the same run of \<open>drop\<close> as the one-element
  collection holding that string.
\<close>

theorem single_string_same_as_singleton:
  "DropCommand_init crx p (Str r) sn sps da ssw = DropCommand_init crx p (Strs [r]) sn sps da ssw \<and>
   DropCommand_init crx p rs sn (Str sp) da ssw = DropCommand_init crx p rs sn (Strs [sp]) da ssw \<and>
   drop_cmd crx p (Str r) sn sps da ssw = drop_cmd crx p (Strs [r]) sn sps da ssw \<and>
   drop_cmd crx p rs sn (Str sp) da ssw = drop_cmd crx p rs sn (Strs [sp]) da ssw"
  by (simp add: DropCommand_init_def drop_cmd_def)

text \<open>
  The statement at the example pipeline.
\<close>

theorem single_string_same_as_singleton_witness:
  "DropCommand_init exact_names users_pipeline (Str ''users'') None (Strs [''config.token'']) False False =
     DropCommand_init exact_names users_pipeline (Strs [''users'']) None (Strs [''config.token'']) False False \<and>
   DropCommand_init exact_names users_pipeline (Strs [''orders'']) None (Str ''config.token'') False False =
     DropCommand_init exact_names users_pipeline (Strs [''orders'']) None (Strs [''config.token'']) False False \<and>
   drop_cmd exact_names users_pipeline (Str ''users'') None (Strs [''config.token'']) False False =
     drop_cmd exact_names users_pipeline (Strs [''users'']) None (Strs [''config.token'']) False False \<and>
   drop_cmd exact_names users_pipeline (Strs [''orders'']) None (Str ''config.token'') False False =
     drop_cmd exact_names users_pipeline (Strs [''orders'']) None (Strs [''config.token'']) False False"
  by (rule single_string_same_as_singleton)


end
